theory Spec2Isabelle
  imports Complex_Main "HOL-Library.Log_Nat"
begin

section \<open>EpiVirus client: statistics derived from a simulation history\<close>

text \<open>
  The React client receives a results object from the simulation service and derives
  the figures it shows (summary box, charts, CSV export, animation controls) from the
  day-indexed series of that object. Counts are natural numbers, one entry per
  simulated day. The series the charts plot are kept as exact rationals; the
  percentages the summary box prints are computed in double precision, as the digits
  printed depend on it. A value JavaScript would show as \<^verbatim>\<open>undefined\<close>, \<^verbatim>\<open>NaN\<close> or
  \<^verbatim>\<open>Infinity\<close> is \<open>None\<close>.
\<close>

subsection \<open>JavaScript array primitives\<close>

text \<open>\<^verbatim>\<open>xs[i]\<close>: \<^verbatim>\<open>undefined\<close> outside the array.\<close>

definition js_nth :: "'a list \<Rightarrow> int \<Rightarrow> 'a option" where
  "js_nth xs i = (if 0 \<le> i \<and> i < int (length xs) then Some (xs ! nat i) else None)"

text \<open>\<^verbatim>\<open>xs.slice(start, end)\<close> for non-negative bounds.\<close>

definition slice :: "'a list \<Rightarrow> nat \<Rightarrow> nat \<Rightarrow> 'a list" where
  "slice xs start end = take (end - start) (drop start xs)"

text \<open>\<^verbatim>\<open>xs.reduce((a, b) => a + b, 0)\<close>\<close>

definition reduce_add :: "rat list \<Rightarrow> rat" where
  "reduce_add xs = foldl (\<lambda>a b. a + b) 0 xs"

text \<open>\<open>sum / xs.length\<close>: not a number when the array is empty.\<close>

definition js_div :: "rat \<Rightarrow> nat \<Rightarrow> rat option" where
  "js_div a n = (if n = 0 then None else Some (a / of_nat n))"

text \<open>\<^verbatim>\<open>Math.max(...xs)\<close> is \<^verbatim>\<open>-Infinity\<close> on the empty array.\<close>

datatype maxval = NegInfinity | Num nat

fun max_step :: "maxval \<Rightarrow> nat \<Rightarrow> maxval" where
  "max_step NegInfinity x = Num x"
| "max_step (Num m) x = Num (max m x)"

definition Math_max :: "nat list \<Rightarrow> maxval" where
  "Math_max xs = foldl max_step NegInfinity xs"

text \<open>\<^verbatim>\<open>xs.indexOf(v)\<close>: the first index holding \<open>v\<close>, or \<open>-1\<close>.\<close>

fun indexOf :: "'a list \<Rightarrow> 'a \<Rightarrow> int" where
  "indexOf [] v = -1"
| "indexOf (x # xs) v =
     (if x = v then 0 else (let r = indexOf xs v in if r < 0 then -1 else r + 1))"

text \<open>
  A JavaScript number is an IEEE 754 double: 53 significant bits, every arithmetic
  operation rounded to the nearest double, to the one with an even last bit when two
  are equally near. \<open>exponent x\<close> is the \<open>e\<close> with \<open>2^e \<le> x < 2^(e+1)\<close> for a positive
  \<open>x\<close>, and \<open>fl x\<close> the double nearest to \<open>x\<close>. (The exponent range of doubles is not
  modelled: a quotient of counts below \<open>2^53\<close>, and 100 times it, lie well inside.)
\<close>

definition exponent :: "rat \<Rightarrow> int" where
  "exponent x =
     (let (p, q) = quotient_of x; e = bitlen p - bitlen q
      in if 2 powi e \<le> x then e else e - 1)"

definition round_half_even :: "rat \<Rightarrow> int" where
  "round_half_even y =
     (let n = \<lfloor>y\<rfloor>; r = y - of_int n
      in if r < 1 / 2 then n else if 1 / 2 < r then n + 1 else if even n then n else n + 1)"

definition fl :: "rat \<Rightarrow> rat" where
  "fl x =
     (if x = 0 then 0
      else (let ulp = 2 powi (exponent \<bar>x\<bar> - 52)
            in sgn x * of_int (round_half_even (\<bar>x\<bar> / ulp)) * ulp))"

text \<open>
  \<^verbatim>\<open>x.toFixed(f)\<close> of a double \<open>x\<close>: the multiple of \<open>10^-f\<close> nearest to the exact
  value of \<open>x\<close>, the larger in magnitude when two are equally near. The value of the
  decimal string is kept, not its characters.
\<close>

definition toFixed :: "nat \<Rightarrow> rat \<Rightarrow> rat" where
  "toFixed f x = sgn x * of_int \<lfloor>\<bar>x\<bar> * 10 ^ f + 1 / 2\<rfloor> / 10 ^ f"

subsection \<open>The results object\<close>

text \<open>
  \<^verbatim>\<open>history\<close> holds one array per compartment. The consumers below read \<^verbatim>\<open>time\<close>,
  \<^verbatim>\<open>S\<close>, \<^verbatim>\<open>I\<close> and \<^verbatim>\<open>R\<close> directly and \<^verbatim>\<open>E\<close> and \<^verbatim>\<open>D\<close> through \<^verbatim>\<open>?.\<close>, so
  only the latter two may be absent.
\<close>

record history =
  time :: "nat list"
  S :: "nat list"
  E :: "nat list option"
  I :: "nat list"
  R :: "nat list"
  D :: "nat list option"

record results =
  history :: "history option"

subsection \<open>Seven-day moving average (ComprehensiveCharts.jsx, AdvancedCharts.jsx)\<close>

text \<open>
  \<^verbatim>\<open>calculateMovingAvg(data, window = 7)\<close> of \<^verbatim>\<open>EpidemicCurveChart\<close> and
  \<^verbatim>\<open>DailyNewInfectionsChart\<close> (the two copies are identical).
\<close>

definition calculateMovingAvg :: "rat list \<Rightarrow> nat \<Rightarrow> rat option list" where
  "calculateMovingAvg data window =
     map (\<lambda>i. let start = nat (max 0 (int i - int window + 1));
                  slice = slice data start (i + 1)
              in js_div (reduce_add slice) (length slice))
         [0..<length data]"

text \<open>\<^verbatim>\<open>movingAverage\<close> of \<^verbatim>\<open>DailyNewCasesChart\<close>, with the window written as \<open>i - 6\<close>.\<close>

definition movingAverage :: "rat list \<Rightarrow> rat option list" where
  "movingAverage dailyCases =
     map (\<lambda>i. let start = nat (max 0 (int i - 6));
                  window = slice dailyCases start (i + 1)
              in js_div (reduce_add window) (length window))
         [0..<length dailyCases]"


subsection \<open>Summary box (ComprehensiveCharts.jsx, SimulationSummary)\<close>

text \<open>\<^verbatim>\<open>xs[i] || 0\<close> and \<^verbatim>\<open>xs?.[i] || 0\<close>: a missing array or entry reads as 0.\<close>

definition nth_or_0 :: "nat list \<Rightarrow> int \<Rightarrow> nat" where
  "nth_or_0 xs i = (case js_nth xs i of None \<Rightarrow> 0 | Some v \<Rightarrow> v)"

definition opt_nth_or_0 :: "nat list option \<Rightarrow> int \<Rightarrow> nat" where
  "opt_nth_or_0 xs i = (case xs of None \<Rightarrow> 0 | Some ys \<Rightarrow> nth_or_0 ys i)"

text \<open>\<open>a + b\<close> where an operand may be \<^verbatim>\<open>undefined\<close>: the sum is then \<^verbatim>\<open>NaN\<close>.\<close>

fun js_add :: "nat option \<Rightarrow> nat option \<Rightarrow> nat option" where
  "js_add (Some a) (Some b) = Some (a + b)"
| "js_add _ _ = None"

text \<open>
  \<open>a / b * 100\<close> on counts, a rounded division followed by a rounded multiplication:
  not a finite number when an operand is \<^verbatim>\<open>NaN\<close> or the divisor is 0.
\<close>

fun js_percent :: "nat option \<Rightarrow> nat option \<Rightarrow> rat option" where
  "js_percent (Some a) (Some b) =
     (if b = 0 then None else Some (fl (fl (of_nat a / of_nat b) * 100)))"
| "js_percent _ _ = None"

text \<open>
  The values the box computes from \<^verbatim>\<open>history\<close>. (\<^verbatim>\<open>totalVaccinated\<close> and
  \<^verbatim>\<open>totalHospitalized\<close> are copied from \<^verbatim>\<open>detailed_data\<close> and are left out.)
\<close>

record summary =
  lastDay :: int
  peakInfections :: maxval
  peakDay :: int
  totalRecovered :: "nat option"
  totalDeaths :: nat
  totalPopulation :: "nat option"
  attackRate :: "rat option"
  caseFatalityRate :: rat
  finalSusceptible :: "nat option"

definition summary_values :: "history \<Rightarrow> summary" where
  "summary_values h =
     (let lastDay = int (length (S h)) - 1;
          peakInfections = Math_max (I h);
          peakDay = (case peakInfections of NegInfinity \<Rightarrow> -1 | Num m \<Rightarrow> indexOf (I h) m);
          totalRecovered = js_nth (R h) lastDay;
          totalDeaths = opt_nth_or_0 (D h) lastDay;
          totalPopulation = js_add (js_add (js_nth (S h) 0) (js_nth (I h) 0)) (js_nth (R h) 0);
          attackRate = map_option (toFixed 1)
             (js_percent (js_add totalRecovered (Some totalDeaths)) totalPopulation);
          caseFatalityRate =
             (case js_add totalRecovered (Some totalDeaths) of
                Some resolved \<Rightarrow>
                  if totalDeaths > 0 \<and> resolved > 0
                  then toFixed 2 (fl (fl (of_nat totalDeaths / of_nat resolved) * 100))
                  else 0
              | None \<Rightarrow> 0)
      in \<lparr>lastDay = lastDay, peakInfections = peakInfections, peakDay = peakDay,
          totalRecovered = totalRecovered, totalDeaths = totalDeaths,
          totalPopulation = totalPopulation, attackRate = attackRate,
          caseFatalityRate = caseFatalityRate,
          finalSusceptible = js_nth (S h) lastDay\<rparr>)"

datatype 'a rendered = Null | TypeError | Shown 'a

text \<open>
  The component returns \<^verbatim>\<open>null\<close> without results and throws when \<^verbatim>\<open>history\<close> is
  missing (\<^verbatim>\<open>history.S.length\<close>).
\<close>

definition SimulationSummary :: "results option \<Rightarrow> summary rendered" where
  "SimulationSummary simulationResults =
     (case simulationResults of
        None \<Rightarrow> Null
      | Some r \<Rightarrow> (case history r of None \<Rightarrow> TypeError | Some h \<Rightarrow> Shown (summary_values h)))"

text \<open>\<^verbatim>\<open>OverviewTab\<close>: "Peak Infected" is \<^verbatim>\<open>Math.round(Math.max(...history.I))\<close>;
  rounding leaves a count and \<^verbatim>\<open>-Infinity\<close> unchanged.\<close>

definition OverviewTab_peakInfected :: "history \<Rightarrow> maxval" where
  "OverviewTab_peakInfected h = Math_max (I h)"

subsection \<open>Attack-rate and cumulative charts (ComprehensiveCharts.jsx)\<close>

text \<open>
  \<^verbatim>\<open>AttackRateChart\<close>: one row \<open>(day, Attack Rate (%))\<close> per entry of \<^verbatim>\<open>history.S\<close>,
  \<open>((initialPop - s) / initialPop) * 100\<close> with \<open>initialPop = S[0]\<close>.
\<close>

definition attack_rate_pct :: "nat option \<Rightarrow> nat \<Rightarrow> rat option" where
  "attack_rate_pct initialPop s =
     (case initialPop of
        None \<Rightarrow> None
      | Some p \<Rightarrow> if p = 0 then None else Some ((of_nat p - of_nat s) / of_nat p * 100))"

definition AttackRateChart :: "history option \<Rightarrow> (nat \<times> rat option) list option" where
  "AttackRateChart hist =
     (case hist of
        None \<Rightarrow> None
      | Some h \<Rightarrow>
          (let initialPop = js_nth (S h) 0
           in Some (map (\<lambda>(i, s). (i, attack_rate_pct initialPop s)) (enumerate 0 (S h)))))"

text \<open>
  \<^verbatim>\<open>CumulativeStatsChart\<close>: rows \<open>(day, Total Infected, Total Recovered, Total Deaths)\<close>
  with \<open>Total Infected = S[0] - S[i]\<close>.
\<close>

definition js_sub :: "nat option \<Rightarrow> nat \<Rightarrow> int option" where
  "js_sub a b = map_option (\<lambda>x. int x - int b) a"

definition CumulativeStatsChart ::
  "history option \<Rightarrow> (nat \<times> int option \<times> nat option \<times> nat) list option" where
  "CumulativeStatsChart hist =
     (case hist of
        None \<Rightarrow> None
      | Some h \<Rightarrow>
          Some (map (\<lambda>(i, s). (i, js_sub (js_nth (S h) 0) s, js_nth (R h) (int i),
                                opt_nth_or_0 (D h) (int i)))
                    (enumerate 0 (S h))))"

subsection \<open>Animation viewer (AnimationTab.jsx)\<close>

definition maxFrames :: "results option \<Rightarrow> nat" where
  "maxFrames simulationResults =
     (case simulationResults of
        None \<Rightarrow> 0
      | Some r \<Rightarrow> (case history r of None \<Rightarrow> 0 | Some h \<Rightarrow> length (time h)))"

record player =
  currentFrame :: int
  isPlaying :: bool

text \<open>The interval callback of the auto-play effect.\<close>

definition tick :: "nat \<Rightarrow> player \<Rightarrow> player" where
  "tick mf p =
     (if currentFrame p \<ge> int mf - 1
      then \<lparr>currentFrame = 0, isPlaying = False\<rparr>
      else p\<lparr>currentFrame := currentFrame p + 1\<rparr>)"

definition handlePlayPause :: "player \<Rightarrow> player" where
  "handlePlayPause p = p\<lparr>isPlaying := \<not> isPlaying p\<rparr>"

definition handleFirst :: "player \<Rightarrow> player" where
  "handleFirst p = \<lparr>currentFrame = 0, isPlaying = False\<rparr>"

definition handlePrev :: "player \<Rightarrow> player" where
  "handlePrev p = \<lparr>currentFrame = max 0 (currentFrame p - 1), isPlaying = False\<rparr>"

definition handleNext :: "nat \<Rightarrow> player \<Rightarrow> player" where
  "handleNext mf p = \<lparr>currentFrame = min (int mf - 1) (currentFrame p + 1), isPlaying = False\<rparr>"

definition handleLast :: "nat \<Rightarrow> player \<Rightarrow> player" where
  "handleLast mf p = \<lparr>currentFrame = int mf - 1, isPlaying = False\<rparr>"

text \<open>
  The slider is \<^verbatim>\<open><input type="range" min="0" max={Math.max(0, maxFrames - 1)}>\<close>;
  its handler stores the integer the input reports.
\<close>

definition slider_max :: "nat \<Rightarrow> int" where
  "slider_max mf = max 0 (int mf - 1)"

definition handleSliderChange :: "int \<Rightarrow> player \<Rightarrow> player" where
  "handleSliderChange v p = \<lparr>currentFrame = v, isPlaying = False\<rparr>"

text \<open>
  \<^verbatim>\<open>currentData\<close> of the shown frame and the \<^verbatim>\<open>total\<close> that
  \<^verbatim>\<open>Unique3DVisualization\<close> derives from it.
\<close>

record compartments =
  cS :: nat
  cE :: nat
  cI :: nat
  cR :: nat
  cD :: nat

definition currentData :: "results \<Rightarrow> int \<Rightarrow> compartments" where
  "currentData simulationResults frame =
     (case history simulationResults of
        None \<Rightarrow> \<lparr>cS = 0, cE = 0, cI = 0, cR = 0, cD = 0\<rparr>
      | Some h \<Rightarrow>
          \<lparr>cS = nth_or_0 (S h) frame, cE = opt_nth_or_0 (E h) frame, cI = nth_or_0 (I h) frame,
           cR = nth_or_0 (R h) frame, cD = opt_nth_or_0 (D h) frame\<rparr>)"

definition total :: "compartments \<Rightarrow> nat" where
  "total c = cS c + cE c + cI c + cR c + cD c"

subsection \<open>CSV export (App, exportCSV)\<close>

text \<open>\<^verbatim>\<open>String(n)\<close> of a count: its decimal digits.\<close>

definition digit_char :: "nat \<Rightarrow> char" where
  "digit_char d = ''0123456789'' ! d"

fun string_of_nat :: "nat \<Rightarrow> string" where
  "string_of_nat n =
     (if n < 10 then [digit_char n] else string_of_nat (n div 10) @ [digit_char (n mod 10)])"

declare string_of_nat.simps [simp del]

text \<open>
  \<^verbatim>\<open>xs.join(sep)\<close> on strings, and the text \<^verbatim>\<open>join\<close> puts for an element: nothing
  for \<^verbatim>\<open>undefined\<close>.
\<close>

fun join :: "string \<Rightarrow> string list \<Rightarrow> string" where
  "join sep [] = []"
| "join sep [x] = x"
| "join sep (x # y # ys) = x @ sep @ join sep (y # ys)"

definition cell_text :: "nat option \<Rightarrow> string" where
  "cell_text c = (case c of None \<Rightarrow> [] | Some n \<Rightarrow> string_of_nat n)"

definition headers :: "string list" where
  "headers = [''day'', ''S'', ''E'', ''I'', ''R'', ''D'']"

definition newline :: char where
  "newline = CHR 0x0A"

definition csv_row :: "history \<Rightarrow> nat \<Rightarrow> nat \<Rightarrow> nat option list" where
  "csv_row h day idx =
     [Some day, js_nth (S h) (int idx), Some (opt_nth_or_0 (E h) (int idx)),
      js_nth (I h) (int idx), js_nth (R h) (int idx), Some (opt_nth_or_0 (D h) (int idx))]"

text \<open>
  The text \<^verbatim>\<open>exportCSV\<close> hands to the download (\<open>None\<close>: it returns without
  exporting).
\<close>

definition exportCSV :: "results option \<Rightarrow> string option" where
  "exportCSV res =
     (case res of
        None \<Rightarrow> None
      | Some r \<Rightarrow>
          (case history r of
             None \<Rightarrow> None
           | Some h \<Rightarrow>
               (let rows = map (\<lambda>(idx, day). csv_row h day idx) (enumerate 0 (time h));
                    csv = join [newline]
                            (join '','' headers # map (\<lambda>row. join '','' (map cell_text row)) rows)
                in Some csv)))"

text \<open>The lines of a text: \<^verbatim>\<open>text.split('\n')\<close>.\<close>

fun split_on :: "char \<Rightarrow> string \<Rightarrow> string list" where
  "split_on c [] = [[]]"
| "split_on c (x # xs) =
     (if x = c then [] # split_on c xs
      else (case split_on c xs of [] \<Rightarrow> [[x]] | l # ls \<Rightarrow> (x # l) # ls))"

text \<open>
  Line \<open>k\<close> of the export as the claim words it: \<open>time[k]\<close>, \<open>S[k]\<close>, \<open>E[k]\<close>,
  \<open>I[k]\<close>, \<open>R[k]\<close>, \<open>D[k]\<close> joined by commas, where \<open>E[k]\<close> and \<open>D[k]\<close> are 0 when
  the series is absent or has no entry at \<open>k\<close> (and a mandatory series without an
  entry at \<open>k\<close> leaves its field empty).
\<close>

definition entry_text :: "nat list \<Rightarrow> nat \<Rightarrow> string" where
  "entry_text xs k = (if k < length xs then string_of_nat (xs ! k) else [])"

definition entry_or_zero :: "nat list option \<Rightarrow> nat \<Rightarrow> nat" where
  "entry_or_zero xs k = (case xs of None \<Rightarrow> 0 | Some ys \<Rightarrow> if k < length ys then ys ! k else 0)"

definition claimed_line :: "history \<Rightarrow> nat \<Rightarrow> string" where
  "claimed_line h k =
     string_of_nat (time h ! k) @ '','' @ entry_text (S h) k @ '','' @
     string_of_nat (entry_or_zero (E h) k) @ '','' @ entry_text (I h) k @ '','' @
     entry_text (R h) k @ '','' @ string_of_nat (entry_or_zero (D h) k)"

subsection \<open>Hospital charts (ComprehensiveCharts.jsx)\<close>

text \<open>
  \<^verbatim>\<open>detailed_data.severity_breakdown\<close>: one count per day and severity. Both charts
  return \<^verbatim>\<open>null\<close> when \<^verbatim>\<open>hospitalized\<close> is missing, the capacity chart also when
  \<^verbatim>\<open>critical\<close> is.
\<close>

record severity_breakdown =
  asymptomatic :: "nat list"
  mild :: "nat list"
  severe :: "nat list"
  hospitalized :: "nat list option"
  critical :: "nat list option"

text \<open>A chart row is an object read by \<^verbatim>\<open>dataKey\<close>; a chart draws a list of series.\<close>

type_synonym row = "(string \<times> nat option) list"

datatype series = Area string string | Line string

definition HospitalCapacityChart_data :: "severity_breakdown option \<Rightarrow> nat \<Rightarrow> row list option" where
  "HospitalCapacityChart_data hospitalData capacity =
     (case hospitalData of
        None \<Rightarrow> None
      | Some sd \<Rightarrow>
          (case hospitalized sd of
             None \<Rightarrow> None
           | Some hosps \<Rightarrow>
               (case critical sd of
                  None \<Rightarrow> None
                | Some crits \<Rightarrow>
                    Some (map (\<lambda>(i, hosp).
                             [(''day'', Some i), (''Hospitalized'', Some hosp),
                              (''Critical'', js_nth crits (int i)), (''Capacity'', Some capacity)])
                           (enumerate 0 hosps)))))"

definition HospitalCapacityChart_series :: "series list" where
  "HospitalCapacityChart_series =
     [Area ''Hospitalized'' ''1'', Area ''Critical'' ''1'', Line ''Capacity'']"

text \<open>\<^verbatim>\<open>HealthcareSystemChart({ severityData, capacity = 50 })\<close>\<close>

definition HealthcareSystemChart_data ::
  "severity_breakdown option \<Rightarrow> nat option \<Rightarrow> row list option" where
  "HealthcareSystemChart_data severityData capacity =
     (case severityData of
        None \<Rightarrow> None
      | Some sd \<Rightarrow>
          (case hospitalized sd of
             None \<Rightarrow> None
           | Some hosps \<Rightarrow>
               Some (map (\<lambda>i.
                        [(''day'', Some i), (''Asymptomatic'', js_nth (asymptomatic sd) (int i)),
                         (''Mild'', js_nth (mild sd) (int i)),
                         (''Severe'', js_nth (severe sd) (int i)),
                         (''Hospitalized'', js_nth hosps (int i)),
                         (''ICUCapacity'', Some (case capacity of None \<Rightarrow> 50 | Some c \<Rightarrow> c))])
                      [0..<length hosps])))"

definition HealthcareSystemChart_series :: "series list" where
  "HealthcareSystemChart_series =
     [Area ''Asymptomatic'' ''1'', Area ''Mild'' ''1'', Area ''Severe'' ''1'',
      Area ''Hospitalized'' ''1'', Line ''ICUCapacity'']"

text \<open>
  The chart library draws the areas that share a \<^verbatim>\<open>stackId\<close> on top of one another:
  the upper edge of the stack over a row is the sum of their values in that row.
\<close>

fun stack_keys :: "string \<Rightarrow> series list \<Rightarrow> string list" where
  "stack_keys sid [] = []"
| "stack_keys sid (Area k s # rest) = (if s = sid then k # stack_keys sid rest else stack_keys sid rest)"
| "stack_keys sid (Line k # rest) = stack_keys sid rest"

definition row_value :: "row \<Rightarrow> string \<Rightarrow> nat option" where
  "row_value r k = (case map_of r k of None \<Rightarrow> None | Some v \<Rightarrow> v)"

definition stack_total :: "series list \<Rightarrow> string \<Rightarrow> row \<Rightarrow> nat option" where
  "stack_total chart sid r = foldl (\<lambda>acc k. js_add acc (row_value r k)) (Some 0) (stack_keys sid chart)"

definition HospitalCapacityChart_stack :: "severity_breakdown option \<Rightarrow> nat \<Rightarrow> nat option list option" where
  "HospitalCapacityChart_stack hospitalData capacity =
     map_option (map (stack_total HospitalCapacityChart_series ''1''))
       (HospitalCapacityChart_data hospitalData capacity)"

definition HealthcareSystemChart_stack ::
  "severity_breakdown option \<Rightarrow> nat option \<Rightarrow> nat option list option" where
  "HealthcareSystemChart_stack severityData capacity =
     map_option (map (stack_total HealthcareSystemChart_series ''1''))
       (HealthcareSystemChart_data severityData capacity)"

definition example_severity :: severity_breakdown where
  "example_severity =
     \<lparr>asymptomatic = [10, 12], mild = [5, 6], severe = [3, 4], hospitalized = Some [2, 3],
      critical = Some [1, 2]\<rparr>"

subsection \<open>R-effective (statistics engine)\<close>

text \<open>
  Modelled from the spec: the statistics engine that computes R-effective is not among
  the sources; the client only plots the series it receives
  (\<^verbatim>\<open>detailed_data.r_effective\<close>). An InfectionEdge is
  \<open>(infector_id, infectee_id, day)\<close>; the lineage is the append-only list of them.
\<close>

record InfectionEdge =
  infector_id :: nat
  infectee_id :: nat
  day :: nat

text \<open>
  Modelled from the spec: the trailing 7-day window of day \<open>t\<close> holds the days
  \<open>t - 6, \<dots>, t\<close>.
\<close>

definition in_window :: "nat \<Rightarrow> nat \<Rightarrow> bool" where
  "in_window t d \<longleftrightarrow> d \<le> t \<and> t < d + 7"

text \<open>
  Modelled from the spec: the nodes that became Infectious within the window, from the
  log \<open>(node, day)\<close> of the Exposed-to-Infectious transitions.
\<close>

definition window_nodes :: "(nat \<times> nat) list \<Rightarrow> nat \<Rightarrow> nat list" where
  "window_nodes onsets t = map fst (filter (\<lambda>(n, d). in_window t d) onsets)"

text \<open>
  Modelled from the spec: the number of secondary infections of a node observed
  within the window, counted in the lineage.
\<close>

definition secondary_infections :: "InfectionEdge list \<Rightarrow> nat \<Rightarrow> nat \<Rightarrow> nat" where
  "secondary_infections lineage t n =
     length (filter (\<lambda>e. infector_id e = n \<and> in_window t (day e)) lineage)"

text \<open>
  Modelled from the spec: one pass over the lineage tallies the secondary infections
  per infector; a node the pass never meets keeps the tally 0.
\<close>

definition tally :: "InfectionEdge list \<Rightarrow> nat \<Rightarrow> nat \<Rightarrow> nat" where
  "tally lineage t =
     foldl (\<lambda>cnt e. if in_window t (day e) then cnt(infector_id e := cnt (infector_id e) + 1) else cnt)
           (\<lambda>_. 0) lineage"

text \<open>
  Modelled from the spec: R-effective of day \<open>t\<close> is the mean tally over the nodes of
  the window, every node of the window counted; without such a node there is no mean
  (\<open>None\<close>).
\<close>

definition r_effective :: "InfectionEdge list \<Rightarrow> (nat \<times> nat) list \<Rightarrow> nat \<Rightarrow> rat option" where
  "r_effective lineage onsets t =
     (let nodes = window_nodes onsets t; cnt = tally lineage t
      in if nodes = [] then None
         else Some (of_nat (sum_list (map cnt nodes)) / of_nat (length nodes)))"

text \<open>
  A lineage in which nodes 1 and 2, Infectious from days 3 and 5, infect two others
  each within the window of day 8; node 0 became Infectious on day 0, outside it. In
  the second log node 9 also became Infectious in the window and infected nobody.
\<close>

definition example_lineage :: "InfectionEdge list" where
  "example_lineage =
     [\<lparr>infector_id = 0, infectee_id = 1, day = 1\<rparr>, \<lparr>infector_id = 0, infectee_id = 2, day = 2\<rparr>,
      \<lparr>infector_id = 1, infectee_id = 3, day = 4\<rparr>, \<lparr>infector_id = 1, infectee_id = 4, day = 6\<rparr>,
      \<lparr>infector_id = 2, infectee_id = 5, day = 6\<rparr>, \<lparr>infector_id = 2, infectee_id = 6, day = 8\<rparr>]"

definition example_onsets :: "(nat \<times> nat) list" where
  "example_onsets = [(0, 0), (1, 3), (2, 5)]"

definition example_onsets_with_idle :: "(nat \<times> nat) list" where
  "example_onsets_with_idle = [(0, 0), (1, 3), (2, 5), (9, 7)]"

subsection \<open>Conservation and two example runs\<close>

text \<open>
  The number of individuals a day's snapshot accounts for, and the conservation
  invariant of a history for a population of \<open>n\<close>: every recorded day accounts for
  exactly \<open>n\<close> individuals.
\<close>

definition day_count :: "history \<Rightarrow> nat \<Rightarrow> nat" where
  "day_count h k = nth_or_0 (S h) (int k) + opt_nth_or_0 (E h) (int k) + nth_or_0 (I h) (int k)
                     + nth_or_0 (R h) (int k) + opt_nth_or_0 (D h) (int k)"

definition conserved :: "history \<Rightarrow> nat \<Rightarrow> bool" where
  "conserved h n = list_all (\<lambda>k. day_count h k = n) [0..<length (S h)]"

text \<open>
  A population of 100 with five seeds, Exposed on day 0 as the engine's seeding step
  leaves them; the epidemic has burnt out by day 3.
\<close>

definition burnt_out_run :: history where
  "burnt_out_run =
     \<lparr>time = [0, 1, 2, 3], S = [95, 80, 60, 40], E = Some [5, 0, 10, 0], I = [0, 20, 20, 0],
      R = [0, 0, 9, 58], D = Some [0, 0, 1, 2]\<rparr>"

text \<open>
  A population of 100 whose run stops at its last configured day with infections still
  active; nobody is Exposed or Deceased on day 0.
\<close>

definition ongoing_run :: history where
  "ongoing_run =
     \<lparr>time = [0, 1, 2], S = [99, 80, 40], E = Some [0, 10, 10], I = [1, 8, 20],
      R = [0, 2, 28], D = Some [0, 0, 2]\<rparr>"

text \<open>
  A population of 200 that ends with 137 Recovered and 23 Deceased: \<open>23 / 160 * 100\<close>
  is 14.375 exactly and the double \<open>14.374999999999998\<close> in the summary box.
\<close>

definition tie_run :: history where
  "tie_run =
     \<lparr>time = [0, 1, 2, 3], S = [199, 150, 80, 40], E = Some [0, 30, 40, 0], I = [1, 15, 50, 0],
      R = [0, 4, 27, 137], D = Some [0, 1, 3, 23]\<rparr>"

section \<open>Properties\<close>

subsection \<open>Moving average\<close>

lemma reduce_add_sum_list: "reduce_add xs = sum_list xs"
proof -
  have "foldl (\<lambda>a b. a + b) a xs = a + sum_list xs" for a :: rat
    by (induction xs arbitrary: a) simp_all
  then show ?thesis by (simp add: reduce_add_def)
qed

lemma sum_list_slice:
  assumes "e \<le> length xs"
  shows "sum_list (slice xs s e) = (\<Sum>k = s..<e. (xs ! k :: rat))"
proof (cases "s \<le> e")
  case True
  have "sum_list (slice xs s e) = (\<Sum>j = 0..<e - s. xs ! (s + j))"
    using assms True by (simp add: slice_def sum_list_sum_nth)
  also have "\<dots> = (\<Sum>k = s..<e. xs ! k)"
    using True sum.shift_bounds_nat_ivl [of "\<lambda>k. xs ! k" 0 s "e - s"] by (simp add: add.commute)
  finally show ?thesis .
next
  case False
  then show ?thesis by (simp add: slice_def)
qed

lemma length_slice: "e \<le> length xs \<Longrightarrow> length (slice xs s e) = e - s"
  by (simp add: slice_def)

lemma window_start: "nat (max 0 (int i - 6)) = i - 6"
  by simp

lemma movingAverage_same: "movingAverage d = calculateMovingAvg d 7"
  unfolding movingAverage_def calculateMovingAvg_def
  by (rule map_cong) (simp_all add: Let_def)

lemma calculateMovingAvg_entry:
  assumes "i < length d"
  shows "calculateMovingAvg d 7 ! i = Some ((\<Sum>k = i - 6..i. d ! k) / of_nat (i - (i - 6) + 1))"
proof -
  have le: "Suc i \<le> length d" using assms by simp
  have ivl: "{i - 6..<Suc i} = {i - 6..i}" by auto
  have len: "Suc i - (i - 6) = i - (i - 6) + 1" by arith
  have entry: "calculateMovingAvg d 7 ! i =
      js_div (reduce_add (slice d (i - 6) (Suc i))) (length (slice d (i - 6) (Suc i)))"
    using assms by (simp add: calculateMovingAvg_def Let_def window_start)
  have pos: "i - (i - 6) + 1 \<noteq> 0" by simp
  show ?thesis
    unfolding entry reduce_add_sum_list sum_list_slice [OF le] length_slice [OF le] ivl len
      js_div_def if_not_P [OF pos] ..
qed

text \<open>
  C9. At every index \<open>i\<close> of the daily-case list the charts' seven-day average is the
  arithmetic mean of the trailing window \<open>d[max(0, i - 6) .. i]\<close>: the sum of those
  entries over their number. From day 6 on that is the mean of the seven latest values;
  before, the mean of the \<open>i + 1\<close> values seen so far. All three copies of the
  computation agree.
\<close>

theorem moving_average_trailing_window:
  assumes "i < length d"
  shows "calculateMovingAvg d 7 ! i
           = Some ((\<Sum>k = nat (max 0 (int i - 6))..i. d ! k)
                   / of_nat (card {nat (max 0 (int i - 6))..i}))
       \<and> movingAverage d ! i = calculateMovingAvg d 7 ! i
       \<and> (6 \<le> i \<longrightarrow> calculateMovingAvg d 7 ! i = Some ((\<Sum>k = i - 6..i. d ! k) / 7))
       \<and> (i < 6 \<longrightarrow> calculateMovingAvg d 7 ! i = Some ((\<Sum>k = 0..i. d ! k) / of_nat (i + 1)))"
proof -
  note a = calculateMovingAvg_entry [OF assms]
  have c: "card {i - 6..i} = i - (i - 6) + 1" by simp
  have "6 \<le> i \<Longrightarrow> i - (i - 6) + 1 = 7" by arith
  then have seven: "6 \<le> i \<Longrightarrow> calculateMovingAvg d 7 ! i = Some ((\<Sum>k = i - 6..i. d ! k) / 7)"
    using a by simp
  have "i < 6 \<Longrightarrow> i - 6 = 0" by arith
  then have fewer: "i < 6 \<Longrightarrow> calculateMovingAvg d 7 ! i = Some ((\<Sum>k = 0..i. d ! k) / of_nat (i + 1))"
    using a by simp
  show ?thesis
    unfolding window_start c using a seven fewer by (simp add: movingAverage_same)
qed

theorem moving_average_trailing_window_witness:
  "(8::nat) < length [7, 14, 0, 0, 0, 0, 0, 7, 70 :: rat]
   \<and> calculateMovingAvg [7, 14, 0, 0, 0, 0, 0, 7, 70] 7 ! 8
       = Some ((\<Sum>k = 2..8. [7, 14, 0, 0, 0, 0, 0, 7, 70] ! k) / 7)
   \<and> calculateMovingAvg [7, 14, 0, 0, 0, 0, 0, 7, 70] 7 ! 1 = Some (21 / 2)"
  using moving_average_trailing_window [of 8 "[7, 14, 0, 0, 0, 0, 0, 7, 70]"]
    moving_average_trailing_window [of 1 "[7, 14, 0, 0, 0, 0, 0, 7, 70]"]
  by (simp add: atLeastAtMost_upt)

subsection \<open>Peak infections and peak day\<close>

lemma foldl_max_step: "foldl max_step (Num m) xs = Num (fold max xs m)"
  by (induction xs arbitrary: m) (simp_all add: max.commute)

lemma Math_max_nonempty: "xs \<noteq> [] \<Longrightarrow> Math_max xs = Num (Max (set xs))"
proof (cases xs)
  case Nil
  assume "xs \<noteq> []"
  with Nil show ?thesis by simp
next
  case (Cons x ys)
  have "Math_max xs = Num (fold max ys x)"
    by (simp add: Math_max_def Cons foldl_max_step)
  also have "fold max ys x = Max (set xs)"
    unfolding Cons by (rule Max.set_eq_fold [symmetric])
  finally show ?thesis .
qed

lemma indexOf_first:
  "v \<in> set xs \<Longrightarrow>
   \<exists>d < length xs. indexOf xs v = int d \<and> xs ! d = v \<and> (\<forall>j < d. xs ! j \<noteq> v)"
proof (induction xs)
  case Nil
  then show ?case by simp
next
  case (Cons x xs)
  show ?case
  proof (cases "x = v")
    case True
    then show ?thesis by auto
  next
    case False
    with Cons.prems have "v \<in> set xs" by simp
    from Cons.IH [OF this] obtain d where d: "d < length xs" "indexOf xs v = int d"
      "xs ! d = v" "\<forall>j < d. xs ! j \<noteq> v" by blast
    have "\<forall>j < Suc d. (x # xs) ! j \<noteq> v"
      using False d(4) by (auto simp: nth_Cons split: nat.splits)
    with d False have "Suc d < length (x # xs) \<and> indexOf (x # xs) v = int (Suc d)
        \<and> (x # xs) ! Suc d = v \<and> (\<forall>j < Suc d. (x # xs) ! j \<noteq> v)"
      by (simp add: Let_def)
    then show ?thesis by blast
  qed
qed

lemma indexOf_absent: "v \<notin> set xs \<Longrightarrow> indexOf xs v = -1"
  by (induction xs) (auto simp: Let_def)

text \<open>
  C2. For a non-empty Infectious series the summary's peak infections is the maximum of
  the series (the overview tab shows the same number) and its peak day is the first
  index at which the series attains that maximum.
\<close>

theorem peak_is_max_and_first_argmax:
  assumes "I h \<noteq> []"
  shows "peakInfections (summary_values h) = Num (Max (set (I h)))
       \<and> OverviewTab_peakInfected h = Num (Max (set (I h)))
       \<and> (\<exists>d < length (I h). peakDay (summary_values h) = int d
              \<and> I h ! d = Max (set (I h))
              \<and> (\<forall>j < d. I h ! j < Max (set (I h))))"
proof -
  let ?m = "Max (set (I h))"
  have mx: "Math_max (I h) = Num ?m" by (rule Math_max_nonempty [OF assms])
  have "?m \<in> set (I h)" using assms by (intro Max_in) simp_all
  from indexOf_first [OF this] obtain d where d: "d < length (I h)" "indexOf (I h) ?m = int d"
    "I h ! d = ?m" "\<forall>j < d. I h ! j \<noteq> ?m" by blast
  have "I h ! j < ?m" if "j < d" for j
  proof -
    have "I h ! j \<in> set (I h)" using that d(1) by simp
    then have "I h ! j \<le> ?m" by simp
    moreover have "I h ! j \<noteq> ?m" using that d(4) by simp
    ultimately show ?thesis by simp
  qed
  with d have "d < length (I h) \<and> peakDay (summary_values h) = int d \<and> I h ! d = ?m
      \<and> (\<forall>j < d. I h ! j < ?m)"
    by (simp add: summary_values_def Let_def mx)
  then show ?thesis
    using mx by (auto simp: summary_values_def OverviewTab_peakInfected_def Let_def)
qed

theorem peak_is_max_and_first_argmax_witness:
  "I burnt_out_run \<noteq> []
   \<and> peakInfections (summary_values burnt_out_run) = Num 20
   \<and> peakDay (summary_values burnt_out_run) = 1"
  using peak_is_max_and_first_argmax [of burnt_out_run]
  by (simp add: burnt_out_run_def summary_values_def Let_def Math_max_def)

subsection \<open>Attack rate over time\<close>

lemma map_enumerate:
  "map (\<lambda>(i, s). f i s) (enumerate 0 xs) = map (\<lambda>i. f i (xs ! i)) [0..<length xs]"
  by (rule nth_equalityI) (simp_all add: nth_enumerate_eq)

lemma AttackRateChart_rows:
  assumes "S h \<noteq> []" and "0 < S h ! 0"
  shows "AttackRateChart (Some h) =
     Some (map (\<lambda>i. (i, Some ((of_nat (S h ! 0) - of_nat (S h ! i)) / of_nat (S h ! 0) * 100)))
               [0..<length (S h)])"
  using assms
  by (simp add: AttackRateChart_def Let_def map_enumerate js_nth_def attack_rate_pct_def)

lemma CumulativeStatsChart_rows:
  assumes "S h \<noteq> []"
  shows "map_option (map (\<lambda>row. fst (snd row))) (CumulativeStatsChart (Some h)) =
     Some (map (\<lambda>i. Some (int (S h ! 0) - int (S h ! i))) [0..<length (S h)])"
  using assms
  by (simp add: CumulativeStatsChart_def map_enumerate js_sub_def js_nth_def comp_def)

text \<open>
  C5. When the Susceptible series never increases and starts at a positive count, the
  attack-rate chart has one finite value per day and these values never decrease from
  an earlier day to a later one; likewise the cumulative chart's ever-infected count
  \<open>S[0] - S[i]\<close>.
\<close>

theorem attack_rate_non_decreasing:
  assumes "S h \<noteq> []" and "0 < S h ! 0" and "sorted_wrt (\<lambda>a b. b \<le> a) (S h)"
  shows "\<exists>rows. AttackRateChart (Some h) = Some rows \<and> length rows = length (S h)
       \<and> (\<forall>i j. i \<le> j \<and> j < length rows \<longrightarrow>
            (\<exists>a b. rows ! i = (i, Some a) \<and> rows ! j = (j, Some b) \<and> a \<le> b))
       \<and> map_option (map (\<lambda>row. fst (snd row))) (CumulativeStatsChart (Some h))
           = Some (map (\<lambda>i. Some (int (S h ! 0) - int (S h ! i))) [0..<length (S h)])
       \<and> sorted (map (\<lambda>i. int (S h ! 0) - int (S h ! i)) [0..<length (S h)])"
proof -
  let ?p = "S h ! 0"
  let ?rate = "\<lambda>i. (of_nat ?p - of_nat (S h ! i)) / of_nat ?p * (100 :: rat)"
  let ?rows = "map (\<lambda>i. (i, Some (?rate i))) [0..<length (S h)]"
  have down: "S h ! j \<le> S h ! i" if "i \<le> j" "j < length (S h)" for i j
  proof (cases "i = j")
    case True
    then show ?thesis by simp
  next
    case False
    with that have "i < j" by simp
    with assms(3) that(2) show ?thesis by (simp add: sorted_wrt_iff_nth_less)
  qed
  have mono: "?rate i \<le> ?rate j" if "i \<le> j" "j < length (S h)" for i j
  proof -
    have "(of_nat (S h ! j) :: rat) \<le> of_nat (S h ! i)" using down [OF that] by simp
    then have "(of_nat ?p - of_nat (S h ! i) :: rat) \<le> of_nat ?p - of_nat (S h ! j)" by simp
    then show ?thesis using assms(2) by (simp add: divide_right_mono)
  qed
  have "\<forall>i j. i \<le> j \<and> j < length ?rows \<longrightarrow>
      (\<exists>a b. ?rows ! i = (i, Some a) \<and> ?rows ! j = (j, Some b) \<and> a \<le> b)"
    using mono by simp
  moreover have "sorted (map (\<lambda>i. int (S h ! 0) - int (S h ! i)) [0..<length (S h)])"
    using down by (simp add: sorted_iff_nth_mono)
  ultimately show ?thesis
    unfolding AttackRateChart_rows [OF assms(1,2)] CumulativeStatsChart_rows [OF assms(1)]
    by (intro exI [of _ ?rows]) simp
qed

theorem attack_rate_non_decreasing_witness:
  "S burnt_out_run \<noteq> [] \<and> 0 < S burnt_out_run ! 0
   \<and> sorted_wrt (\<lambda>a b. b \<le> a) (S burnt_out_run)
   \<and> (\<exists>rows. AttackRateChart (Some burnt_out_run) = Some rows \<and> length rows = 4)
   \<and> map_option (map (\<lambda>row. fst (snd row))) (CumulativeStatsChart (Some burnt_out_run))
       = Some [Some 0, Some 15, Some 35, Some 55]"
proof -
  have a: "S burnt_out_run \<noteq> []" and b: "0 < S burnt_out_run ! 0"
    and c: "sorted_wrt (\<lambda>a b. b \<le> a) (S burnt_out_run)"
    by (simp_all add: burnt_out_run_def)
  have "length (S burnt_out_run) = 4" by (simp add: burnt_out_run_def)
  moreover have "map (\<lambda>i. Some (int (S burnt_out_run ! 0) - int (S burnt_out_run ! i)))
      [0..<length (S burnt_out_run)] = [Some 0, Some 15, Some 35, Some 55]"
    by (simp add: burnt_out_run_def upt_rec)
  ultimately show ?thesis using attack_rate_non_decreasing [OF a b c] a b c by auto
qed

subsection \<open>Animation frame controls\<close>

text \<open>
  C10. With at least one frame, every frame control (First, Prev, Next, Last, the
  timeline slider reporting a value within its \<open>min\<close> and \<open>max\<close>, the auto-play tick,
  and Play/Pause, which leaves the frame alone) takes a frame index in
  \<open>[0, maxFrames - 1]\<close> to a frame index in that range. The tick taken at the last
  frame goes back to frame 0 and stops playback; before the last frame it advances by
  one.
\<close>

theorem frame_controls_stay_in_range:
  assumes "1 \<le> maxFrames r"
    and "0 \<le> currentFrame p" and "currentFrame p \<le> int (maxFrames r) - 1"
    and "0 \<le> v" and "v \<le> slider_max (maxFrames r)"
  shows "(\<forall>q \<in> {handleFirst p, handlePrev p, handleNext (maxFrames r) p, handleLast (maxFrames r) p,
                 handleSliderChange v p, tick (maxFrames r) p, handlePlayPause p}.
            0 \<le> currentFrame q \<and> currentFrame q \<le> int (maxFrames r) - 1)
       \<and> (currentFrame p = int (maxFrames r) - 1 \<longrightarrow>
            tick (maxFrames r) p = \<lparr>currentFrame = 0, isPlaying = False\<rparr>)
       \<and> (currentFrame p < int (maxFrames r) - 1 \<longrightarrow>
            tick (maxFrames r) p = p\<lparr>currentFrame := currentFrame p + 1\<rparr>)"
  using assms
  by (simp add: handleFirst_def handlePrev_def handleNext_def handleLast_def
        handleSliderChange_def tick_def handlePlayPause_def slider_max_def)

theorem frame_controls_stay_in_range_witness:
  "1 \<le> maxFrames (Some \<lparr>history = Some burnt_out_run\<rparr>)
   \<and> tick (maxFrames (Some \<lparr>history = Some burnt_out_run\<rparr>)) \<lparr>currentFrame = 3, isPlaying = True\<rparr>
       = \<lparr>currentFrame = 0, isPlaying = False\<rparr>
   \<and> currentFrame (handleNext (maxFrames (Some \<lparr>history = Some burnt_out_run\<rparr>))
         \<lparr>currentFrame = 3, isPlaying = True\<rparr>) \<le> 3"
  using frame_controls_stay_in_range [of "Some \<lparr>history = Some burnt_out_run\<rparr>"
      "\<lparr>currentFrame = 3, isPlaying = True\<rparr>" 2]
  by (simp add: maxFrames_def burnt_out_run_def slider_max_def)

subsection \<open>Case-fatality rate\<close>

lemma toFixed_nonneg_error:
  assumes "0 \<le> x"
  shows "\<bar>toFixed f x - x\<bar> \<le> 1 / (2 * 10 ^ f)"
proof -
  let ?s = "(10 :: rat) ^ f"
  let ?n = "\<lfloor>x * ?s + 1 / 2\<rfloor>"
  have s: "0 < ?s" by simp
  have lo: "of_int ?n \<le> x * ?s + 1 / 2" by (rule of_int_floor_le)
  have hi: "x * ?s + 1 / 2 < of_int ?n + 1" by linarith
  have n0: "0 \<le> ?n" using assms by simp
  have tf: "toFixed f x = of_int ?n / ?s"
  proof (cases "x = 0")
    case True
    have "\<lfloor>1 / 2 :: rat\<rfloor> = 0" by (rule floor_unique) simp_all
    with True show ?thesis by (simp add: toFixed_def)
  next
    case False
    with assms have "0 < x" by simp
    then show ?thesis by (simp add: toFixed_def)
  qed
  have half: "\<bar>of_int ?n - x * ?s\<bar> \<le> 1 / 2" using lo hi by linarith
  have s0: "0 \<le> ?s" by simp
  have "\<bar>of_int ?n - x * ?s\<bar> / ?s \<le> (1 / 2) / ?s"
    by (rule divide_right_mono [OF half s0])
  then have "\<bar>of_int ?n - x * ?s\<bar> / ?s \<le> 1 / (2 * ?s)" by simp
  moreover have "\<bar>of_int ?n - x * ?s\<bar> / ?s = \<bar>of_int ?n / ?s - x\<bar>"
  proof -
    have "of_int ?n / ?s - x = (of_int ?n - x * ?s) / ?s" using s by (simp add: diff_divide_distrib)
    then show ?thesis using s by (simp del: of_int_diff)
  qed
  ultimately show ?thesis by (simp add: tf)
qed

lemma exponent_le:
  assumes "0 < x"
  shows "2 powi exponent x \<le> x"
proof -
  obtain p q where pq: "quotient_of x = (p, q)" by (cases "quotient_of x")
  then have q: "0 < q" and x: "x = of_int p / of_int q"
    by (simp_all add: quotient_of_denom_pos quotient_of_div)
  have p: "0 < p" using assms q x by (simp add: zero_less_divide_iff)
  let ?e = "bitlen p - bitlen q"
  show ?thesis
  proof (cases "2 powi ?e \<le> x")
    case True
    then show ?thesis by (simp add: exponent_def pq)
  next
    case False
    then have e: "exponent x = ?e - 1" by (simp add: exponent_def pq)
    have bp: "1 \<le> bitlen p" using p bitlen_eq_zero_iff [of p] bitlen_nonneg [of p] by linarith
    have bq: "0 \<le> bitlen q" by (rule bitlen_nonneg)
    have lo: "(2::int) ^ nat (bitlen p - 1) \<le> p" using bitlen_bounds [OF p] by simp
    have hi: "q < 2 ^ nat (bitlen q)" using bitlen_bounds [OF q] by simp
    have lo': "(2::rat) ^ nat (bitlen p - 1) \<le> of_int p"
      using lo by (metis of_int_le_iff of_int_numeral of_int_power)
    have hi': "(of_int q :: rat) \<le> 2 ^ nat (bitlen q)"
      using hi by (metis less_imp_le of_int_le_iff of_int_numeral of_int_power)
    have "(2::rat) powi (?e - 1) = 2 powi (bitlen p - 1) / 2 powi (bitlen q)"
      using power_int_diff [of "2::rat" "bitlen p - 1" "bitlen q"] by (simp add: algebra_simps)
    also have "\<dots> = 2 ^ nat (bitlen p - 1) / 2 ^ nat (bitlen q)"
      using bp bq by (simp add: power_int_def)
    also have "\<dots> \<le> of_int p / of_int q"
      using lo' hi' q p by (intro frac_le) simp_all
    finally have "2 powi (?e - 1) \<le> x" by (simp add: x)
    then show ?thesis by (simp only: e)
  qed
qed

lemma round_half_even_error: "\<bar>of_int (round_half_even y) - y\<bar> \<le> 1 / 2"
proof -
  have "of_int \<lfloor>y\<rfloor> \<le> y" "y < of_int \<lfloor>y\<rfloor> + 1" by linarith+
  then show ?thesis by (auto simp: round_half_even_def Let_def abs_le_iff)
qed

lemma round_half_even_nonneg: "0 \<le> y \<Longrightarrow> 0 \<le> round_half_even y"
  by (auto simp: round_half_even_def Let_def)

lemma fl_pos:
  assumes "0 < x"
  shows "fl x = of_int (round_half_even (x / 2 powi (exponent x - 52))) * 2 powi (exponent x - 52)"
  using assms by (simp add: fl_def Let_def)

lemma fl_nonneg: "0 \<le> x \<Longrightarrow> 0 \<le> fl x"
proof (cases "x = 0")
  case True
  then show ?thesis by (simp add: fl_def)
next
  case False
  assume "0 \<le> x"
  with False have x: "0 < x" by simp
  have "0 \<le> x / 2 powi (exponent x - 52)" using x by simp
  then have "0 \<le> round_half_even (x / 2 powi (exponent x - 52))" by (rule round_half_even_nonneg)
  then show ?thesis unfolding fl_pos [OF x] by simp
qed

lemma fl_error:
  assumes "0 < x"
  shows "\<bar>fl x - x\<bar> \<le> x / 2 ^ 53"
proof -
  let ?u = "(2::rat) powi (exponent x - 52)"
  let ?m = "round_half_even (x / ?u)"
  have u: "0 < ?u" by simp
  have "fl x - x = (of_int ?m - x / ?u) * ?u" using u by (simp add: fl_pos [OF assms] algebra_simps)
  then have "\<bar>fl x - x\<bar> = \<bar>of_int ?m - x / ?u\<bar> * ?u" using u by (simp add: abs_mult)
  also have "\<dots> \<le> (1 / 2) * ?u"
    using round_half_even_error [of "x / ?u"] u by (intro mult_right_mono) simp_all
  also have "\<dots> = 2 powi exponent x / 2 ^ 53"
    using power_int_diff [of "2::rat" "exponent x" 52] by simp
  also have "\<dots> \<le> x / 2 ^ 53"
    using exponent_le [OF assms] by (intro divide_right_mono) simp_all
  finally show ?thesis .
qed

lemma percent_error:
  assumes "0 < q" and "q \<le> 1"
  shows "\<bar>fl (fl q * 100) - q * 100\<bar> \<le> 1 / 2 ^ 45" and "0 \<le> fl (fl q * 100)"
proof -
  let ?e = "1 / (2::rat) ^ 53"
  have "q / 2 ^ 53 \<le> 1 / 2 ^ 53" using assms(2) by (intro divide_right_mono) simp_all
  with fl_error [OF assms(1)] have a: "\<bar>fl q - q\<bar> \<le> ?e" by linarith
  have "0 \<le> fl q" using assms(1) by (intro fl_nonneg) simp
  show nn: "0 \<le> fl (fl q * 100)" using \<open>0 \<le> fl q\<close> by (intro fl_nonneg) simp
  have b: "\<bar>fl (fl q * 100) - fl q * 100\<bar> \<le> fl q * 100 / 2 ^ 53"
  proof (cases "fl q = 0")
    case True
    then show ?thesis by (simp add: fl_def)
  next
    case False
    with \<open>0 \<le> fl q\<close> have "0 < fl q * 100" by simp
    then show ?thesis by (rule fl_error)
  qed
  have c: "fl q \<le> 1 + ?e" using a assms(2) by linarith
  have "fl q * 100 / 2 ^ 53 \<le> (1 + ?e) * 100 / 2 ^ 53"
    using c by (intro divide_right_mono mult_right_mono) simp_all
  with b have b': "\<bar>fl (fl q * 100) - fl q * 100\<bar> \<le> (1 + ?e) * 100 / 2 ^ 53" by linarith
  have a': "\<bar>fl q * 100 - q * 100\<bar> \<le> ?e * 100" using a by linarith
  have "\<bar>fl (fl q * 100) - q * 100\<bar> \<le> (1 + ?e) * 100 / 2 ^ 53 + ?e * 100"
    using a' b' by linarith
  also have "\<dots> \<le> 1 / 2 ^ 45" by (simp add: field_simps)
  finally show "\<bar>fl (fl q * 100) - q * 100\<bar> \<le> 1 / 2 ^ 45" .
qed

lemma fl_tie_example: "fl (fl (23 / 160) * 100) = 8092405580431359 / 562949953421312"
  by code_simp

lemma toFixed_double_examples:
  "toFixed 2 (fl (fl (23 / 160) * 100)) = 1437 / 100 \<and> toFixed 1 (fl (fl (23 / 80) * 100)) = 287 / 10"
  by code_simp

text \<open>
  C3, as amended. Let the final day be the last index of the Susceptible series,
  \<open>recovered\<close> the Recovered count at it and \<open>deceased\<close> the Deceased count at it (0
  when there is no Deceased series or entry), with \<open>recovered + deceased > 0\<close>. The
  case-fatality rate of the summary is 0 when \<open>deceased = 0\<close>; otherwise it is the
  percentage \<open>deceased / (recovered + deceased) * 100\<close>, computed in double precision
  and printed with two decimals, which differs from
  \<open>100 * deceased / (recovered + deceased)\<close> by at most \<open>0.005 + 2^-45\<close>.
\<close>

theorem case_fatality_rate_reported:
  assumes "js_nth (R h) (int (length (S h)) - 1) = Some recovered"
    and "opt_nth_or_0 (D h) (int (length (S h)) - 1) = deceased"
    and "0 < recovered + deceased"
  shows "caseFatalityRate (summary_values h) =
           (if deceased = 0 then 0
            else toFixed 2 (fl (fl (of_nat deceased / of_nat (recovered + deceased)) * 100)))
       \<and> \<bar>caseFatalityRate (summary_values h) - of_nat deceased / of_nat (recovered + deceased) * 100\<bar>
           \<le> 1 / 200 + 1 / 2 ^ 45"
proof -
  let ?q = "of_nat deceased / of_nat (recovered + deceased) :: rat"
  have cfr: "caseFatalityRate (summary_values h) =
      (if deceased = 0 then 0 else toFixed 2 (fl (fl ?q * 100)))"
    using assms(3) by (simp add: summary_values_def Let_def assms(1,2))
  have "\<bar>caseFatalityRate (summary_values h) - ?q * 100\<bar> \<le> 1 / 200 + 1 / 2 ^ 45"
  proof (cases "deceased = 0")
    case True
    then show ?thesis by (simp add: cfr)
  next
    case False
    then have pos: "0 < ?q" using assms(3) by (simp add: zero_less_divide_iff)
    have dpos: "(0::rat) < of_nat (recovered + deceased)"
      using assms(3) by (simp only: of_nat_0_less_iff)
    have le: "?q \<le> 1" unfolding pos_divide_le_eq [OF dpos] by simp
    note dbl = percent_error [OF pos le]
    have "\<bar>toFixed 2 (fl (fl ?q * 100)) - fl (fl ?q * 100)\<bar> \<le> 1 / 200"
      using toFixed_nonneg_error [OF dbl(2), of 2] by simp
    with dbl(1) have "\<bar>toFixed 2 (fl (fl ?q * 100)) - ?q * 100\<bar> \<le> 1 / 200 + 1 / 2 ^ 45"
      by linarith
    then show ?thesis using False by (simp add: cfr)
  qed
  with cfr show ?thesis by simp
qed

theorem case_fatality_rate_reported_witness:
  "js_nth (R tie_run) (int (length (S tie_run)) - 1) = Some 137
   \<and> opt_nth_or_0 (D tie_run) (int (length (S tie_run)) - 1) = 23
   \<and> (0::nat) < 137 + 23
   \<and> caseFatalityRate (summary_values tie_run)
       = toFixed 2 (fl (fl (of_nat 23 / of_nat (137 + 23)) * 100))
   \<and> \<bar>caseFatalityRate (summary_values tie_run) - of_nat 23 / of_nat (137 + 23) * 100\<bar>
       \<le> 1 / 200 + 1 / 2 ^ 45"
proof -
  have a: "js_nth (R tie_run) (int (length (S tie_run)) - 1) = Some 137"
    and b: "opt_nth_or_0 (D tie_run) (int (length (S tie_run)) - 1) = 23"
    by (simp_all add: tie_run_def js_nth_def opt_nth_or_0_def nth_or_0_def)
  have c: "(0::nat) < 137 + 23" and g: "(23::nat) \<noteq> 0" by simp_all
  note t = case_fatality_rate_reported [OF a b c]
  from t [unfolded if_not_P [OF g]] a b c show ?thesis by blast
qed

lemma caseFatalityRate_tie_run: "caseFatalityRate (summary_values tie_run) = 1437 / 100"
  by code_simp

lemma totals_tie_run:
  "totalRecovered (summary_values tie_run) = Some 137 \<and> totalDeaths (summary_values tie_run) = 23"
  by (simp add: summary_values_def Let_def tie_run_def js_nth_def opt_nth_or_0_def nth_or_0_def)

text \<open>
  C3 as stated fails on \<open>tie_run\<close>: with 137 Recovered and 23 Deceased on the final
  day the summary reports 14.37, which is neither \<open>23 / 160\<close> nor that ratio as a
  percentage, 14.375.
\<close>

theorem case_fatality_rate_counterexample:
  "totalRecovered (summary_values tie_run) = Some 137
   \<and> totalDeaths (summary_values tie_run) = 23
   \<and> caseFatalityRate (summary_values tie_run) = 1437 / 100
   \<and> caseFatalityRate (summary_values tie_run) \<noteq> 23 / (137 + 23)
   \<and> caseFatalityRate (summary_values tie_run) \<noteq> 23 / (137 + 23) * 100"
  using totals_tie_run caseFatalityRate_tie_run by simp

subsection \<open>Attack rate and population of the summary box\<close>

lemma total_currentData: "total (currentData \<lparr>history = Some h\<rparr> (int k)) = day_count h k"
  by (simp add: total_def currentData_def day_count_def)

lemma animation_total_conserved:
  "conserved h n \<Longrightarrow> k < length (S h) \<Longrightarrow> total (currentData \<lparr>history = Some h\<rparr> (int k)) = n"
  by (simp add: total_currentData conserved_def list_all_iff)

lemma upt_4: "[0..<4] = [0, 1, 2, 3]" by (simp add: upt_rec)
lemma upt_3: "[0..<3] = [0, 1, 2]" by (simp add: upt_rec)

lemma conserved_ongoing_run: "conserved ongoing_run 100"
  by (simp add: conserved_def day_count_def ongoing_run_def nth_or_0_def opt_nth_or_0_def
        js_nth_def upt_3)

lemma conserved_burnt_out_run: "conserved burnt_out_run 100"
  by (simp add: conserved_def day_count_def burnt_out_run_def nth_or_0_def opt_nth_or_0_def
        js_nth_def upt_4)

lemma attackRate_ongoing_run: "attackRate (summary_values ongoing_run) = Some 30"
  by code_simp

lemma attackRate_burnt_out_run: "attackRate (summary_values burnt_out_run) = Some (316 / 5)"
  by code_simp

lemma total_burnt_out_run: "total (currentData \<lparr>history = Some burnt_out_run\<rparr> 0) = 100"
  by (simp add: total_def currentData_def burnt_out_run_def nth_or_0_def opt_nth_or_0_def js_nth_def)

lemma totalPopulation_burnt_out_run: "totalPopulation (summary_values burnt_out_run) = Some 95"
  by (simp add: summary_values_def Let_def burnt_out_run_def js_nth_def)

lemma claimed_ongoing_run: "(1 - of_nat (last (S ongoing_run)) / 100) * 100 = (60 :: rat)"
  by (simp add: ongoing_run_def)


lemma claimed_burnt_out_run: "(1 - of_nat (last (S burnt_out_run)) / 100) * 100 = (60 :: rat)"
  by (simp add: burnt_out_run_def)

text \<open>
  C1. The summary box divides final Recovered plus Deceased by \<open>S[0] + I[0] + R[0]\<close>.
  On \<open>ongoing_run\<close> (population 100, 40 still Susceptible, 30 infected and not yet
  resolved) it reports 30.0 percent where \<open>1 - 40 / 100\<close> is 60 percent; on
  \<open>burnt_out_run\<close> (population 100, five seeds Exposed on day 0, 40 never infected) it
  reports 63.2 percent.
\<close>

theorem summary_attack_rate_on_examples:
  "conserved ongoing_run 100
   \<and> attackRate (summary_values ongoing_run) = Some 30
   \<and> (1 - of_nat (last (S ongoing_run)) / 100) * 100 = (60 :: rat)
   \<and> conserved burnt_out_run 100
   \<and> attackRate (summary_values burnt_out_run) = Some (316 / 5)
   \<and> (1 - of_nat (last (S burnt_out_run)) / 100) * 100 = (60 :: rat)"
  by (intro conjI conserved_ongoing_run attackRate_ongoing_run claimed_ongoing_run
        conserved_burnt_out_run attackRate_burnt_out_run claimed_burnt_out_run)

text \<open>
  C4. On \<open>burnt_out_run\<close> every day accounts for the 100 individuals of the population
  and the animation's total of day 0 is 100, while the summary box, which adds
  \<open>S[0] + I[0] + R[0]\<close> only, shows a population of 95.
\<close>

theorem summary_population_on_example:
  "conserved burnt_out_run 100
   \<and> total (currentData \<lparr>history = Some burnt_out_run\<rparr> 0) = 100
   \<and> totalPopulation (summary_values burnt_out_run) = Some 95"
  by (intro conjI conserved_burnt_out_run total_burnt_out_run totalPopulation_burnt_out_run)

subsection \<open>CSV export\<close>

lemma split_on_nonempty: "split_on c xs \<noteq> []"
  by (induction xs) (auto split: list.splits)

lemma split_on_no_sep: "c \<notin> set l \<Longrightarrow> split_on c l = [l]"
  by (induction l) (auto split: list.splits)

lemma split_on_append:
  "c \<notin> set l \<Longrightarrow> split_on c (l @ c # rest) = l # split_on c rest"
  by (induction l) (auto split: list.splits)

lemma split_on_join:
  "ls \<noteq> [] \<Longrightarrow> \<forall>l \<in> set ls. c \<notin> set l \<Longrightarrow> split_on c (join [c] ls) = ls"
proof (induction "[c]" ls rule: join.induct)
  case 1
  then show ?case by simp
next
  case (2 x)
  then show ?case by (simp add: split_on_no_sep)
next
  case (3 x y ys)
  then show ?case by (simp add: split_on_append)
qed

lemma digit_char_set: "d < 10 \<Longrightarrow> digit_char d \<in> set ''0123456789''"
  unfolding digit_char_def by (rule nth_mem) simp

lemma string_of_nat_digits: "set (string_of_nat n) \<subseteq> set ''0123456789''"
proof (induction n rule: string_of_nat.induct)
  case (1 n)
  show ?case
  proof (cases "n < 10")
    case True
    then show ?thesis
      using digit_char_set [of n] by (subst string_of_nat.simps) simp
  next
    case False
    have "n mod 10 < 10" by simp
    from digit_char_set [OF this] "1.IH" [OF False] show ?thesis
      using False by (subst string_of_nat.simps) simp
  qed
qed

lemma cell_text_chars: "set (cell_text c) \<subseteq> set ''0123456789''"
  using string_of_nat_digits by (cases c) (simp_all add: cell_text_def)

lemma join_chars: "set (join sep ls) \<subseteq> set sep \<union> \<Union> (set ` set ls)"
  by (induction sep ls rule: join.induct) auto

lemma line_no_newline: "newline \<notin> set (join '','' (map cell_text row))"
proof
  assume "newline \<in> set (join '','' (map cell_text row))"
  with join_chars [of "'',''" "map cell_text row"]
  have "newline \<in> set '','' \<or> (\<exists>c \<in> set row. newline \<in> set (cell_text c))" by auto
  then show False using cell_text_chars by (auto simp: newline_def)
qed

lemma header_line: "join '','' headers = ''day,S,E,I,R,D''"
  by (simp add: headers_def)

lemma cell_text_js_nth: "cell_text (js_nth xs (int k)) = entry_text xs k"
  by (simp add: cell_text_def js_nth_def entry_text_def)

lemma opt_nth_or_0_entry: "opt_nth_or_0 xs (int k) = entry_or_zero xs k"
  by (cases xs) (simp_all add: opt_nth_or_0_def nth_or_0_def js_nth_def entry_or_zero_def)

lemma csv_row_line: "join '','' (map cell_text (csv_row h (time h ! k) k)) = claimed_line h k"
  by (simp add: csv_row_def claimed_line_def cell_text_js_nth opt_nth_or_0_entry)
     (simp add: cell_text_def)

text \<open>
  C8. For a results object with a history, the exported text splits at newlines into
  the line \<open>day,S,E,I,R,D\<close> followed by exactly one line per element of
  \<open>history.time\<close>, line \<open>k\<close> being \<open>time[k], S[k], E[k], I[k], R[k], D[k]\<close> joined by
  commas with \<open>E[k]\<close> and \<open>D[k]\<close> read as 0 where missing.
\<close>

theorem exportCSV_lines:
  assumes "history r = Some h"
  shows "\<exists>csv. exportCSV (Some r) = Some csv
       \<and> split_on newline csv = ''day,S,E,I,R,D'' # map (claimed_line h) [0..<length (time h)]
       \<and> length (split_on newline csv) = 1 + length (time h)"
proof -
  let ?lines = "join '','' headers #
      map (\<lambda>row. join '','' (map cell_text row))
          (map (\<lambda>(idx, day). csv_row h day idx) (enumerate 0 (time h)))"
  have csv: "exportCSV (Some r) = Some (join [newline] ?lines)"
    using assms by (simp add: exportCSV_def Let_def)
  have rows: "map (\<lambda>row. join '','' (map cell_text row))
          (map (\<lambda>(idx, day). csv_row h day idx) (enumerate 0 (time h)))
        = map (claimed_line h) [0..<length (time h)]"
    unfolding map_enumerate by (simp add: csv_row_line)
  have "\<forall>l \<in> set ?lines. newline \<notin> set l"
    using line_no_newline by (auto simp: header_line newline_def)
  then have "split_on newline (join [newline] ?lines) = ?lines"
    by (intro split_on_join) simp_all
  then have "split_on newline (join [newline] ?lines)
      = ''day,S,E,I,R,D'' # map (claimed_line h) [0..<length (time h)]"
    unfolding rows header_line .
  then show ?thesis using csv by simp
qed

theorem exportCSV_lines_witness:
  "history \<lparr>history = Some burnt_out_run\<rparr> = Some burnt_out_run
   \<and> (\<exists>csv. exportCSV (Some \<lparr>history = Some burnt_out_run\<rparr>) = Some csv
         \<and> length (split_on newline csv) = 5)"
  using exportCSV_lines [of "\<lparr>history = Some burnt_out_run\<rparr>" burnt_out_run]
  by (auto simp: burnt_out_run_def)

lemma exportCSV_burnt_out_run:
  "exportCSV (Some \<lparr>history = Some burnt_out_run\<rparr>) =
     Some ''day,S,E,I,R,D\<newline>0,95,5,0,0,0\<newline>1,80,0,20,0,0\<newline>2,60,10,20,9,1\<newline>3,40,0,0,58,2''"
  by code_simp

subsection \<open>Hospital usage against capacity\<close>

lemma HospitalCapacityChart_stack_row:
  "stack_total HospitalCapacityChart_series ''1''
     [(''day'', d), (''Hospitalized'', Some a), (''Critical'', Some b), (''Capacity'', c)]
   = Some (a + b)"
  by (simp add: stack_total_def HospitalCapacityChart_series_def row_value_def)

lemma HealthcareSystemChart_stack_row:
  "stack_total HealthcareSystemChart_series ''1''
     [(''day'', d), (''Asymptomatic'', Some a), (''Mild'', Some m), (''Severe'', Some s),
      (''Hospitalized'', Some h), (''ICUCapacity'', c)]
   = Some (a + m + s + h)"
  by (simp add: stack_total_def HealthcareSystemChart_series_def row_value_def)

text \<open>
  C7, as amended. For a severity breakdown with one entry per day in every series,
  \<^verbatim>\<open>HospitalCapacityChart\<close> stacks exactly the day's Hospitalized and Critical counts
  under a line drawn at the configured capacity: the bed usage it shows against
  capacity is Hospitalized + Critical, and the Asymptomatic, Mild and Severe series do
  not enter it. \<^verbatim>\<open>HealthcareSystemChart\<close> is a severity breakdown: the stack it draws
  under its capacity line also holds the Asymptomatic, Mild and Severe series.
\<close>

theorem hospital_chart_stacks:
  assumes "hospitalized sd = Some hs" and "critical sd = Some cs" and "length cs = length hs"
  shows "HospitalCapacityChart_stack (Some sd) capacity
           = Some (map (\<lambda>i. Some (hs ! i + cs ! i)) [0..<length hs])
       \<and> stack_keys ''1'' HospitalCapacityChart_series = [''Hospitalized'', ''Critical'']
       \<and> map_option (map (\<lambda>r. row_value r ''Capacity'')) (HospitalCapacityChart_data (Some sd) capacity)
           = Some (replicate (length hs) (Some capacity))
       \<and> HospitalCapacityChart_stack (Some (sd\<lparr>asymptomatic := a', mild := m', severe := s'\<rparr>)) capacity
           = HospitalCapacityChart_stack (Some sd) capacity
       \<and> set [''Asymptomatic'', ''Mild'', ''Severe'']
           \<subseteq> set (stack_keys ''1'' HealthcareSystemChart_series)"
proof -
  have data: "HospitalCapacityChart_data (Some sd) capacity =
      Some (map (\<lambda>i. [(''day'', Some i), (''Hospitalized'', Some (hs ! i)),
                        (''Critical'', Some (cs ! i)), (''Capacity'', Some capacity)])
                [0..<length hs])"
    using assms(1,2,3)
    by (simp add: HospitalCapacityChart_data_def map_enumerate js_nth_def)
  have st: "HospitalCapacityChart_stack (Some sd) capacity
      = Some (map (\<lambda>i. Some (hs ! i + cs ! i)) [0..<length hs])"
    unfolding HospitalCapacityChart_stack_def data
    by (simp add: HospitalCapacityChart_stack_row comp_def)
  have keys: "stack_keys ''1'' HospitalCapacityChart_series = [''Hospitalized'', ''Critical'']"
    by (simp add: HospitalCapacityChart_series_def)
  have cap: "map_option (map (\<lambda>r. row_value r ''Capacity'')) (HospitalCapacityChart_data (Some sd) capacity)
      = Some (replicate (length hs) (Some capacity))"
    unfolding data by (simp add: row_value_def comp_def map_replicate_const)
  have indep: "HospitalCapacityChart_stack (Some (sd\<lparr>asymptomatic := a', mild := m', severe := s'\<rparr>)) capacity
      = HospitalCapacityChart_stack (Some sd) capacity"
    using assms(1,2) by (simp add: HospitalCapacityChart_stack_def HospitalCapacityChart_data_def)
  have others: "set [''Asymptomatic'', ''Mild'', ''Severe'']
      \<subseteq> set (stack_keys ''1'' HealthcareSystemChart_series)"
    by (simp add: HealthcareSystemChart_series_def)
  from st keys cap indep others show ?thesis by (intro conjI)
qed

lemma HealthcareSystemChart_stack_values:
  assumes "hospitalized sd = Some hs"
    and "length (asymptomatic sd) = length hs" and "length (mild sd) = length hs"
    and "length (severe sd) = length hs"
  shows "HealthcareSystemChart_stack (Some sd) (Some capacity)
           = Some (map (\<lambda>i. Some (asymptomatic sd ! i + mild sd ! i + severe sd ! i + hs ! i))
                       [0..<length hs])"
proof -
  have hdata: "HealthcareSystemChart_data (Some sd) (Some capacity) =
      Some (map (\<lambda>i. [(''day'', Some i), (''Asymptomatic'', Some (asymptomatic sd ! i)),
                        (''Mild'', Some (mild sd ! i)), (''Severe'', Some (severe sd ! i)),
                        (''Hospitalized'', Some (hs ! i)), (''ICUCapacity'', Some capacity)])
                [0..<length hs])"
    using assms by (simp add: HealthcareSystemChart_data_def js_nth_def)
  show ?thesis
    unfolding HealthcareSystemChart_stack_def hdata
    by (simp add: HealthcareSystemChart_stack_row comp_def)
qed

theorem hospital_chart_stacks_witness:
  "hospitalized example_severity = Some [2, 3] \<and> critical example_severity = Some [1, 2]
   \<and> HospitalCapacityChart_stack (Some example_severity) 50 = Some [Some (2 + 1), Some (3 + 2)]
   \<and> stack_keys ''1'' HospitalCapacityChart_series = [''Hospitalized'', ''Critical'']"
  using hospital_chart_stacks [of example_severity "[2, 3]" "[1, 2]" 50]
  by (simp add: example_severity_def upt_rec)

text \<open>
  C7 as stated fails on \<^verbatim>\<open>HealthcareSystemChart\<close>: with 2 Hospitalized and 1 Critical
  on day 0 (3 and 2 on day 1) the stack it compares with the capacity line is 20 (and
  25), the Asymptomatic, Mild and Severe counts included.
\<close>

theorem healthcare_chart_stack_counterexample:
  "HealthcareSystemChart_stack (Some example_severity) (Some 50) = Some [Some 20, Some 25]
   \<and> HealthcareSystemChart_stack (Some example_severity) (Some 50)
       \<noteq> Some [Some (2 + 1), Some (3 + 2)]"
proof -
  have e: "HealthcareSystemChart_stack (Some example_severity) (Some 50) = Some [Some 20, Some 25]"
    by code_simp
  show ?thesis unfolding e by simp
qed

subsection \<open>R-effective\<close>

lemma tally_foldl:
  "foldl (\<lambda>cnt e. if in_window t (day e) then cnt(infector_id e := cnt (infector_id e) + 1) else cnt)
         c0 lineage n
   = c0 n + secondary_infections lineage t n"
  by (induction lineage arbitrary: c0) (simp_all add: secondary_infections_def)

lemma tally_secondary: "tally lineage t n = secondary_infections lineage t n"
  by (simp add: tally_def tally_foldl)

text \<open>
  C6. Whenever some node became Infectious within the trailing 7-day window of day
  \<open>t\<close>, R-effective of \<open>t\<close> is the mean, over all nodes of the window, of the number
  of secondary infections the lineage records for the node; a node without any
  counts as 0 and stays in the denominator. If each of these nodes caused exactly two
  secondary infections, R-effective is 2.
\<close>

theorem r_effective_is_window_mean:
  assumes "window_nodes onsets t \<noteq> []"
  shows "r_effective lineage onsets t
           = Some (of_nat (\<Sum>n\<leftarrow>window_nodes onsets t. secondary_infections lineage t n)
                   / of_nat (length (window_nodes onsets t)))
       \<and> ((\<forall>n \<in> set (window_nodes onsets t). secondary_infections lineage t n = 2)
            \<longrightarrow> r_effective lineage onsets t = Some 2)"
proof -
  let ?w = "window_nodes onsets t"
  have tl: "tally lineage t = secondary_infections lineage t"
    by (rule ext) (rule tally_secondary)
  have mean: "r_effective lineage onsets t
      = Some (of_nat (\<Sum>n\<leftarrow>?w. secondary_infections lineage t n) / of_nat (length ?w))"
    using assms by (simp add: r_effective_def Let_def tl)
  have "r_effective lineage onsets t = Some 2"
    if two: "\<forall>n \<in> set ?w. secondary_infections lineage t n = 2"
  proof -
    have "map (secondary_infections lineage t) ?w = replicate (length ?w) 2"
      using two by (simp add: map_replicate_const [symmetric] cong: map_cong)
    then have "(\<Sum>n\<leftarrow>?w. secondary_infections lineage t n) = length ?w * 2"
      by (simp add: sum_list_replicate)
    moreover have "length ?w \<noteq> 0" using assms by simp
    ultimately show ?thesis unfolding mean by simp
  qed
  with mean show ?thesis by blast
qed

theorem r_effective_is_window_mean_witness:
  "window_nodes example_onsets 8 = [1, 2]
   \<and> secondary_infections example_lineage 8 1 = 2
   \<and> secondary_infections example_lineage 8 2 = 2
   \<and> r_effective example_lineage example_onsets 8 = Some 2"
proof -
  have w: "window_nodes example_onsets 8 = [1, 2]"
    by (simp add: window_nodes_def example_onsets_def in_window_def)
  have s1: "secondary_infections example_lineage 8 1 = 2"
    and s2: "secondary_infections example_lineage 8 2 = 2"
    by (simp_all add: secondary_infections_def example_lineage_def in_window_def)
  have ne: "window_nodes example_onsets 8 \<noteq> []" by (simp add: w)
  from r_effective_is_window_mean [OF ne, of example_lineage] w s1 s2 show ?thesis by simp
qed

lemma r_effective_counts_idle_node:
  "r_effective example_lineage example_onsets_with_idle 8 = Some (4 / 3)"
  by code_simp

end
